theory Spec2Isabelle
  imports Complex_Main "HOL-Library.AList"
begin

section \<open>MCQ answer parsing and scoring (evaluate\_mcq\_json.py)\<close>

text \<open>
  A shallow embedding of \<^verbatim>\<open>parse_answer_text\<close>, \<^verbatim>\<open>evaluate_mcq\<close> and
  \<^verbatim>\<open>process_json_input\<close> of \<^verbatim>\<open>src/evaluate_mcq_json.py\<close>.

  \<^item> A Python \<^verbatim>\<open>str\<close> is a \<^typ>\<open>string\<close>: a list of characters with the code points
    0 to 255. Code points above 255 are outside the model.
  \<^item> A Python \<^verbatim>\<open>dict\<close> is an association list in insertion order with distinct keys;
    \<^verbatim>\<open>d[k] = v\<close> is \<^const>\<open>AList.update\<close> (an existing key keeps its place and takes
    the new value, a new key goes to the end), \<^verbatim>\<open>d.get(k)\<close> is \<^const>\<open>map_of\<close>,
    \<^verbatim>\<open>len(d)\<close> is \<^const>\<open>length\<close>.
  \<^item> An exception is a value \<open>Inl e\<close> of a sum type.
  \<^item> A Python \<^verbatim>\<open>float\<close> is the rational number it denotes; an operation on floats
    is the exact operation followed by rounding to the nearest binary64 number.
\<close>

subsection \<open>Character classes\<close>

text \<open>
  \<^verbatim>\<open>\d\<close> of the \<^verbatim>\<open>re\<close> module on a \<^verbatim>\<open>str\<close> pattern: the decimal digits. Among the
  code points 0 to 255 these are \<^verbatim>\<open>0\<close> to \<^verbatim>\<open>9\<close>.
\<close>

definition is_digit :: "char \<Rightarrow> bool" where
  "is_digit c = (c \<in> set ''0123456789'')"

text \<open>
  \<^verbatim>\<open>\s\<close> of the \<^verbatim>\<open>re\<close> module and the characters removed by \<^verbatim>\<open>str.strip()\<close>: the
  Unicode whitespace. Among the code points 0 to 255 these are HT, LF, VT, FF, CR, FS, GS,
  RS, US, the space, NEL (0x85) and the no-break space (0xA0).
\<close>

definition is_space :: "char \<Rightarrow> bool" where
  "is_space c = (c \<in> set [CHR 0x09, CHR 0x0A, CHR 0x0B, CHR 0x0C, CHR 0x0D,
                           CHR 0x1C, CHR 0x1D, CHR 0x1E, CHR 0x1F, CHR 0x20,
                           CHR 0x85, CHR 0xA0])"

text \<open>The character class \<^verbatim>\<open>[A-D]\<close>.\<close>

definition is_option :: "char \<Rightarrow> bool" where
  "is_option c = (c \<in> set ''ABCD'')"

text \<open>
  \<^verbatim>\<open>str.upper()\<close>, character by character: \<^verbatim>\<open>a\<close> to \<^verbatim>\<open>z\<close> go to \<^verbatim>\<open>A\<close> to
  \<^verbatim>\<open>Z\<close>. Python also changes some of the code points 128 to 255 (0xB5, 0xDF to 0xFF);
  none of them is a digit, whitespace or a letter of \<^verbatim>\<open>A\<close> to \<^verbatim>\<open>D\<close>, before or after,
  and the parser looks at nothing else, so they are left as they are here.
\<close>

definition upper_char :: "char \<Rightarrow> char" where
  "upper_char c =
     (let n = (of_char c :: nat) in if 97 \<le> n \<and> n \<le> 122 then char_of (n - 32) else c)"

definition upper :: "string \<Rightarrow> string" where
  "upper s = map upper_char s"

text \<open>\<^verbatim>\<open>str.strip()\<close>: whitespace is removed at both ends.\<close>

definition strip :: "string \<Rightarrow> string" where
  "strip s = rev (dropWhile is_space (rev (dropWhile is_space s)))"

subsection \<open>The two pair patterns and \<^verbatim>\<open>re.finditer\<close>\<close>

datatype pattern = SpaceSeparated | Adjacent

text \<open>
  A match of \<^verbatim>\<open>(\d+)\s+([A-D])\<close> or of \<^verbatim>\<open>(\d+)([A-D])\<close> at the very start of \<open>s\<close>:
  the two groups and the text after the match. Both quantifiers are greedy, and giving
  back a digit leaves a digit where whitespace or a letter is required (giving back
  whitespace leaves whitespace where a letter is required), so backtracking finds no match
  that the longest runs do not find.
\<close>

definition match_at :: "pattern \<Rightarrow> string \<Rightarrow> (string \<times> string \<times> string) option" where
  "match_at p s =
     (let q_no = takeWhile is_digit s;
          after_digits = dropWhile is_digit s;
          spaces = (case p of SpaceSeparated \<Rightarrow> takeWhile is_space after_digits
                            | Adjacent \<Rightarrow> []);
          after_spaces = (case p of SpaceSeparated \<Rightarrow> dropWhile is_space after_digits
                                  | Adjacent \<Rightarrow> after_digits)
      in if q_no = [] then None
         else if p = SpaceSeparated \<and> spaces = [] then None
         else (case after_spaces of
                 [] \<Rightarrow> None
               | c # rest \<Rightarrow> if is_option c then Some (q_no, [c], rest) else None))"

text \<open>
  \<^verbatim>\<open>re.finditer\<close>: the matches from left to right, without overlap. A match is tried at
  each position in turn; after a match the scan goes on where the match ended.
\<close>

function finditer :: "pattern \<Rightarrow> string \<Rightarrow> (string \<times> string) list" where
  "finditer p [] = []"
| "finditer p (c # cs) =
     (case match_at p (c # cs) of
        None \<Rightarrow> finditer p cs
      | Some (q_no, opt, rest) \<Rightarrow> (q_no, opt) # finditer p rest)"
  by pat_completeness auto
termination
proof (relation "measure (\<lambda>(p, s). length s)", goal_cases)
  case 1
  show ?case by simp
next
  case (2 p c cs)
  show ?case by simp
next
  case (3 p c cs m q_no r opt rest)
  let ?s = "c # cs"
  have "length (dropWhile is_digit ?s) \<le> length ?s"
    by (rule length_dropWhile_le)
  moreover have "length (dropWhile is_space (dropWhile is_digit ?s))
      \<le> length (dropWhile is_digit ?s)"
    by (rule length_dropWhile_le)
  moreover from 3 have "match_at p ?s = Some (q_no, opt, rest)"
    by simp
  ultimately have "length rest < length ?s"
    by (cases p) (auto simp: match_at_def Let_def split: if_splits list.splits)
  then show ?case by simp
qed

subsection \<open>The line-oriented scan\<close>

text \<open>\<^verbatim>\<open>text.split('\n')\<close>: the pieces between the line feeds, empty pieces included.\<close>

fun split_lines :: "string \<Rightarrow> string list" where
  "split_lines [] = [[]]"
| "split_lines (c # cs) =
     (if c = CHR 0x0A then [] # split_lines cs
      else (case split_lines cs of
              [] \<Rightarrow> [[c]]
            | l # ls \<Rightarrow> (c # l) # ls))"

text \<open>\<^verbatim>\<open>re.search(r'(\d+)', s)\<close>: the leftmost digit run, as long as it goes.\<close>

definition search_digits :: "string \<Rightarrow> string option" where
  "search_digits s =
     (let r = dropWhile (\<lambda>c. \<not> is_digit c) s
      in if r = [] then None else Some (takeWhile is_digit r))"

text \<open>\<^verbatim>\<open>re.search(r'([A-D])', s)\<close>: the leftmost letter of \<^verbatim>\<open>A\<close> to \<^verbatim>\<open>D\<close>.\<close>

definition search_option :: "string \<Rightarrow> string option" where
  "search_option s = (case find is_option s of None \<Rightarrow> None | Some c \<Rightarrow> Some [c])"

text \<open>The body of both \<^verbatim>\<open>for\<close> statements over the matches: \<^verbatim>\<open>answers[q_no] = option\<close>.\<close>

definition store :: "string \<times> string \<Rightarrow> (string \<times> string) list \<Rightarrow> (string \<times> string) list" where
  "store m answers = AList.update (fst m) (snd m) answers"

text \<open>
  What one line yields (lines 62 to 70): the first digit run and the first letter of
  \<^verbatim>\<open>A\<close> to \<^verbatim>\<open>D\<close> of the stripped line, when the stripped line is not empty and has both.
\<close>

definition line_match :: "string \<Rightarrow> (string \<times> string) option" where
  "line_match line =
     (let trimmed = strip line
      in if trimmed \<noteq> [] then
           (case (search_digits trimmed, search_option trimmed) of
              (Some q_no, Some opt) \<Rightarrow> Some (q_no, opt)
            | _ \<Rightarrow> None)
         else None)"

text \<open>The body of the loop over the lines (lines 61 to 71).\<close>

definition line_step :: "string \<Rightarrow> (string \<times> string) list \<Rightarrow> (string \<times> string) list" where
  "line_step line answers =
     (case line_match line of None \<Rightarrow> answers | Some m \<Rightarrow> store m answers)"

subsection \<open>\<^verbatim>\<open>parse_answer_text\<close>\<close>

definition parse_answer_text :: "string \<Rightarrow> (string \<times> string) list" where
  "parse_answer_text answer_text =
     (if answer_text = [] then []
      else
        let text = upper (strip answer_text);
            answers = fold store (finditer SpaceSeparated text) [];
            answers = (if answers = [] then fold store (finditer Adjacent text) answers
                       else answers);
            answers = (if answers = [] \<and> CHR 0x0A \<in> set text
                       then fold line_step (split_lines text) answers
                       else answers)
        in answers)"

subsection \<open>Floating-point arithmetic\<close>

text \<open>
  The spacing of the binary64 numbers around \<open>x \<ge> 0\<close>: \<open>2 ^ (e - 52)\<close> for
  \<open>2 ^ e \<le> x < 2 ^ (e + 1)\<close>, where \<open>e\<close> is found by halving (\<open>ulp_ge1\<close>, for
  \<open>1 \<le> x\<close>, up to the largest exponent 1023) or by doubling (\<open>ulp_lt1\<close>, for
  \<open>x < 1\<close>, down to the smallest exponent \<open>-1022\<close>, below which the spacing stays
  \<open>2 ^ -1074\<close>).
\<close>

fun ulp_ge1 :: "nat \<Rightarrow> rat \<Rightarrow> rat" where
  "ulp_ge1 0 x = 1 / 2 ^ 52"
| "ulp_ge1 (Suc n) x = (if x < 2 then 1 / 2 ^ 52 else 2 * ulp_ge1 n (x / 2))"

fun ulp_lt1 :: "nat \<Rightarrow> rat \<Rightarrow> rat" where
  "ulp_lt1 0 x = 1 / 2 ^ 52"
| "ulp_lt1 (Suc n) x = (if 1 \<le> x then 1 / 2 ^ 52 else ulp_lt1 n (2 * x) / 2)"

definition ulp :: "rat \<Rightarrow> rat" where
  "ulp x = (if 1 \<le> x then ulp_ge1 1023 x else ulp_lt1 1022 x)"

text \<open>The nearest integer, a tie going to the even one: Python's \<^verbatim>\<open>round\<close> of a float.\<close>

definition round_half_even :: "rat \<Rightarrow> int" where
  "round_half_even x =
     (let f = \<lfloor>x\<rfloor>; d = x - of_int f
      in if d < 1 / 2 then f
         else if 1 / 2 < d then f + 1
         else if even f then f else f + 1)"

text \<open>
  The binary64 number nearest to the rational \<open>x\<close>, a tie going to the even significand
  (the rounding of every IEEE 754 operation). Overflow is left out: the numbers rounded
  here lie between 0 and 100.
\<close>

definition binary64 :: "rat \<Rightarrow> rat" where
  "binary64 x =
     (let a = \<bar>x\<bar>; u = ulp a
      in sgn x * (of_int (round_half_even (a / u)) * u))"

datatype error = ZeroDivisionError | ValueError

text \<open>\<^verbatim>\<open>a / b\<close> on two \<^verbatim>\<open>int\<close>s: the correctly rounded quotient, or ZeroDivisionError.\<close>

definition truediv :: "int \<Rightarrow> int \<Rightarrow> error + rat" where
  "truediv a b =
     (if b = 0 then Inl ZeroDivisionError else Inr (binary64 (of_int a / of_int b)))"

text \<open>Line 115: \<^verbatim>\<open>round((score / total) * 100) if total > 0 else 0\<close>.\<close>

definition percentage_of :: "int \<Rightarrow> int \<Rightarrow> error + int" where
  "percentage_of sc tot =
     (if tot > 0 then
        (case truediv sc tot of
           Inl e \<Rightarrow> Inl e
         | Inr q \<Rightarrow> Inr (round_half_even (binary64 (q * 100))))
      else Inr 0)"

subsection \<open>\<^verbatim>\<open>evaluate_mcq\<close>\<close>

record question_result =
  correctOption :: string
  studentOption :: "string option"
  isCorrect :: bool

record evaluation =
  score :: int
  total :: int
  results :: "(string \<times> question_result) list"
  percentage :: int

text \<open>Python's truth value of \<^verbatim>\<open>None\<close> or a \<^verbatim>\<open>str\<close>: only a non-empty string is true.\<close>

definition truthy :: "string option \<Rightarrow> bool" where
  "truthy v = (case v of None \<Rightarrow> False | Some s \<Rightarrow> s \<noteq> [])"

text \<open>The body of the loop over \<^verbatim>\<open>model_answers.items()\<close> (lines 97 to 112).\<close>

definition compare_step ::
  "(string \<times> string) list \<Rightarrow> string \<times> string
     \<Rightarrow> int \<times> (string \<times> question_result) list
     \<Rightarrow> int \<times> (string \<times> question_result) list" where
  "compare_step student_answers item acc =
     (let q_no = fst item; correct_option = snd item;
          sc = fst acc; res = snd acc;
          student_option = map_of student_answers q_no
      in if student_option = Some correct_option then
           (sc + 1,
            AList.update q_no
              \<lparr>correctOption = correct_option,
               studentOption = student_option,
               isCorrect = True\<rparr> res)
         else
           (sc,
            AList.update q_no
              \<lparr>correctOption = correct_option,
               studentOption = (if truthy student_option then student_option else None),
               isCorrect = False\<rparr> res))"

definition evaluate_mcq :: "string \<Rightarrow> string \<Rightarrow> error + evaluation" where
  "evaluate_mcq model_answer_text student_answer_text =
     (let model_answers = parse_answer_text model_answer_text;
          student_answers = parse_answer_text student_answer_text;
          tot = int (length model_answers);
          acc = fold (compare_step student_answers) model_answers (0, [])
      in case percentage_of (fst acc) tot of
           Inl e \<Rightarrow> Inl e
         | Inr pct \<Rightarrow>
             Inr \<lparr>score = fst acc, total = tot, results = snd acc, percentage = pct\<rparr>)"

text \<open>
  The entry that the loop stores for one item of the model answers, written once for both
  branches; \<open>compare_step_entry\<close> below shows that the loop body stores it whenever the
  student answers hold no empty string.
\<close>

definition entry :: "(string \<times> string) list \<Rightarrow> string \<times> string \<Rightarrow> question_result" where
  "entry S item =
     \<lparr>correctOption = snd item,
      studentOption = map_of S (fst item),
      isCorrect = (map_of S (fst item) = Some (snd item))\<rparr>"

text \<open>Whether the student answers hold the option of an item of the model answers.\<close>

definition correct :: "(string \<times> string) list \<Rightarrow> string \<times> string \<Rightarrow> bool" where
  "correct S item = (map_of S (fst item) = Some (snd item))"

subsection \<open>\<^verbatim>\<open>process_json_input\<close>\<close>

text \<open>
  The JSON object, as far as it is read: the values under the keys \<^verbatim>\<open>model_answers\<close> and
  \<^verbatim>\<open>student_answers\<close>, \<open>None\<close> for an absent key or a JSON null. Values that are not
  strings are outside the model.
\<close>

record json_input =
  model_answers :: "string option"
  student_answers :: "string option"

text \<open>
  The guard of line 189 and the call of \<^verbatim>\<open>evaluate_mcq\<close>. The Python function then adds
  the report of \<^verbatim>\<open>format_results\<close> to the result under the key \<^verbatim>\<open>formattedOutput\<close>;
  \<^verbatim>\<open>format_results\<close> reads the result and builds a string, it changes no other field and
  raises nothing on a result of \<^verbatim>\<open>evaluate_mcq\<close>. The report is not modelled.
\<close>

definition process_json_input :: "json_input \<Rightarrow> error + evaluation" where
  "process_json_input j =
     (if \<not> truthy (model_answers j) \<or> \<not> truthy (student_answers j) then Inl ValueError
      else (case (model_answers j, student_answers j) of
              (Some m, Some s) \<Rightarrow> evaluate_mcq m s
            | _ \<Rightarrow> Inl ValueError))"

section \<open>Properties\<close>

subsection \<open>Dictionaries\<close>

lemma update_new:
  "k \<notin> fst ` set al \<Longrightarrow> AList.update k v al = al @ [(k, v)]"
  by (induction al) auto

lemma map_of_fold_store:
  "map_of (fold store ps d) = map_of d ++ map_of (rev ps)"
proof (induction ps arbitrary: d)
  case Nil
  show ?case by simp
next
  case (Cons p ps)
  have "map_of (fold store (p # ps) d) = map_of (store p d) ++ map_of (rev ps)"
    using Cons.IH [of "store p d"] by simp
  also have "map_of (store p d) = map_of d ++ [fst p \<mapsto> snd p]"
    by (simp add: store_def update_conv')
  also have "map_of d ++ [fst p \<mapsto> snd p] ++ map_of (rev ps) = map_of d ++ map_of (rev (p # ps))"
    by (cases p) (simp del: map_add_upd)
  finally show ?case .
qed

lemma distinct_fold_store:
  "distinct (map fst d) \<Longrightarrow> distinct (map fst (fold store ps d))"
  by (induction ps arbitrary: d) (simp_all add: store_def distinct_update)

lemma line_step_store:
  "fold line_step ls d = fold store (List.map_filter line_match ls) d"
  by (induction ls arbitrary: d) (simp_all add: line_step_def split: option.splits)

lemma distinct_parse_answer_text:
  "distinct (map fst (parse_answer_text t))"
  by (simp add: parse_answer_text_def Let_def line_step_store distinct_fold_store)

lemma fold_store_Nil_iff:
  "fold store ps [] = [] \<longleftrightarrow> ps = []"
proof (cases ps)
  case Nil
  then show ?thesis by simp
next
  case (Cons p qs)
  have "map_of (fold store ps []) (fst p) \<noteq> None"
    unfolding map_of_fold_store using Cons
    by (cases p) (auto simp: map_add_def split: option.splits)
  then have "fold store ps [] \<noteq> []" by auto
  with Cons show ?thesis by simp
qed

lemma parse_cases:
  "parse_answer_text t =
     (let text = upper (strip t);
          sp = finditer SpaceSeparated text;
          ad = finditer Adjacent text;
          ln = List.map_filter line_match (split_lines text)
      in if sp \<noteq> [] then fold store sp []
         else if ad \<noteq> [] then fold store ad []
         else if CHR 0x0A \<in> set text then fold store ln []
         else [])"
proof (cases "t = []")
  case True
  then show ?thesis
    by (simp add: parse_answer_text_def upper_def strip_def)
next
  case False
  then show ?thesis
    by (simp add: parse_answer_text_def Let_def line_step_store fold_store_Nil_iff)
qed


subsection \<open>The comparison loop\<close>

lemma match_at_option:
  "match_at p s = Some (q_no, opt, rest) \<Longrightarrow> opt \<noteq> []"
  by (auto simp: match_at_def Let_def split: if_splits list.splits)

lemma finditer_option:
  "\<forall>m \<in> set (finditer p s). snd m \<noteq> []"
proof (induction p s rule: finditer.induct)
  case (1 p)
  show ?case by simp
next
  case (2 p c cs)
  show ?case
  proof (cases "match_at p (c # cs)")
    case None
    with 2(1) show ?thesis by simp
  next
    case (Some r)
    obtain q_no opt rest where r: "r = (q_no, opt, rest)"
      by (cases r) auto
    from Some r have "opt \<noteq> []"
      by (auto dest: match_at_option)
    moreover have "\<forall>m \<in> set (finditer p rest). snd m \<noteq> []"
      using 2(2) Some r by simp
    ultimately show ?thesis
      using Some r by simp
  qed
qed

lemma line_match_option:
  "line_match l = Some (q_no, opt) \<Longrightarrow> opt \<noteq> []"
  by (auto simp: line_match_def Let_def search_option_def split: if_splits option.splits)

lemma map_filter_line_match_option:
  "\<forall>m \<in> set (List.map_filter line_match ls). snd m \<noteq> []"
  by (induction ls) (auto split: option.splits dest: line_match_option)

lemma set_update_subset:
  "set (AList.update k v al) \<subseteq> insert (k, v) (set al)"
  by (induction al) auto

lemma set_fold_store:
  "set (fold store ps d) \<subseteq> set d \<union> set ps"
proof (induction ps arbitrary: d)
  case Nil
  show ?case by simp
next
  case (Cons p ps)
  have "set (store p d) \<subseteq> insert p (set d)"
    using set_update_subset [of "fst p" "snd p" d] by (simp add: store_def)
  with Cons.IH [of "store p d"] show ?case by auto
qed

lemma parse_option_nonempty:
  assumes "(q_no, opt) \<in> set (parse_answer_text t)"
  shows "opt \<noteq> []"
proof -
  let ?text = "upper (strip t)"
  from assms have "(q_no, opt) \<in> set (finditer SpaceSeparated ?text)
      \<or> (q_no, opt) \<in> set (finditer Adjacent ?text)
      \<or> (q_no, opt) \<in> set (List.map_filter line_match (split_lines ?text))"
    using set_fold_store [of _ "[]"]
    by (auto simp: parse_cases Let_def split: if_splits)
  then show ?thesis
    using finditer_option [of SpaceSeparated ?text] finditer_option [of Adjacent ?text]
      map_filter_line_match_option [of "split_lines ?text"]
    by auto
qed

lemma parse_get_nonempty:
  "map_of (parse_answer_text t) q_no = Some opt \<Longrightarrow> opt \<noteq> []"
  by (auto dest: map_of_SomeD parse_option_nonempty)

lemma compare_step_entry:
  assumes "\<forall>v. map_of S (fst item) = Some v \<longrightarrow> v \<noteq> []"
  shows "compare_step S item acc =
     (fst acc + (if map_of S (fst item) = Some (snd item) then 1 else 0),
      AList.update (fst item) (entry S item) (snd acc))"
  using assms
  by (cases "map_of S (fst item)") (auto simp: compare_step_def Let_def entry_def truthy_def)

lemma fold_compare_step:
  assumes "\<forall>q v. map_of S q = Some v \<longrightarrow> v \<noteq> []"
      and "distinct (map fst res @ map fst M)"
  shows "fold (compare_step S) M (sc, res) =
     (sc + int (length (filter (\<lambda>item. map_of S (fst item) = Some (snd item)) M)),
      res @ map (\<lambda>item. (fst item, entry S item)) M)"
  using assms(2)
proof (induction M arbitrary: sc res)
  case Nil
  show ?case by simp
next
  case (Cons item M)
  have new: "fst item \<notin> fst ` set res"
    using Cons.prems by auto
  have step: "compare_step S item (sc, res) =
      (sc + (if map_of S (fst item) = Some (snd item) then 1 else 0),
       res @ [(fst item, entry S item)])"
    using assms(1) new by (simp add: compare_step_entry update_new)
  have d: "distinct (map fst (res @ [(fst item, entry S item)]) @ map fst M)"
    using Cons.prems by auto
  show ?case
    using Cons.IH [OF d] by (simp add: step)
qed


subsection \<open>Rounding\<close>

lemma round_half_even_floor:
  "round_half_even x = \<lfloor>x\<rfloor> \<or> (round_half_even x = \<lfloor>x\<rfloor> + 1 \<and> 1 / 2 \<le> x - of_int \<lfloor>x\<rfloor>)"
  by (auto simp: round_half_even_def Let_def)

lemma round_half_even_le:
  assumes "x \<le> of_int m"
  shows "round_half_even x \<le> m"
proof -
  have f: "\<lfloor>x\<rfloor> \<le> m"
    using assms by (simp add: floor_le_iff)
  show ?thesis
  proof (cases "round_half_even x = \<lfloor>x\<rfloor>")
    case True
    with f show ?thesis by simp
  next
    case False
    with round_half_even_floor [of x]
    have r: "round_half_even x = \<lfloor>x\<rfloor> + 1" and h: "1 / 2 \<le> x - of_int \<lfloor>x\<rfloor>"
      by auto
    have "\<lfloor>x\<rfloor> \<noteq> m"
    proof
      assume "\<lfloor>x\<rfloor> = m"
      with h assms show False by simp
    qed
    with f r show ?thesis by simp
  qed
qed

lemma round_half_even_ge:
  assumes "of_int m \<le> x"
  shows "m \<le> round_half_even x"
proof -
  have "m \<le> \<lfloor>x\<rfloor>"
    using assms by (simp add: le_floor_iff)
  with round_half_even_floor [of x] show ?thesis by auto
qed

lemma round_half_even_of_int [simp]:
  "round_half_even (of_int m) = m"
  by (simp add: round_half_even_def)

lemma ulp_lt1_pow: "\<exists>k. ulp_lt1 n x = 1 / 2 ^ k"
proof (induction n arbitrary: x)
  case 0
  show ?case by (auto intro: exI [of _ 52])
next
  case (Suc n)
  show ?case
  proof (cases "1 \<le> x")
    case True
    then show ?thesis by (auto intro: exI [of _ 52])
  next
    case False
    from Suc [of "2 * x"] obtain k where "ulp_lt1 n (2 * x) = 1 / 2 ^ k" ..
    with False have "ulp_lt1 (Suc n) x = 1 / 2 ^ Suc k" by simp
    then show ?thesis ..
  qed
qed

lemma ulp_ge1_pow:
  "1 \<le> x \<Longrightarrow> \<exists>j. ulp_ge1 n x = 2 ^ j / 2 ^ 52 \<and> 2 ^ j \<le> x"
proof (induction n arbitrary: x)
  case 0
  then show ?case by (auto intro: exI [of _ 0])
next
  case (Suc n)
  show ?case
  proof (cases "x < 2")
    case True
    with Suc.prems show ?thesis by (auto intro: exI [of _ 0])
  next
    case False
    then have "1 \<le> x / 2" by simp
    from Suc.IH [OF this] obtain j
      where j: "ulp_ge1 n (x / 2) = 2 ^ j / 2 ^ 52" "2 ^ j \<le> x / 2" by auto
    from False j have "ulp_ge1 (Suc n) x = 2 ^ Suc j / 2 ^ 52 \<and> 2 ^ Suc j \<le> x"
      by simp
    then show ?thesis ..
  qed
qed

text \<open>
  Rounding does not cross a number \<open>c\<close> that is a whole multiple of the spacing.
\<close>

lemma binary64_le:
  assumes "0 \<le> x" and "x \<le> c" and "0 < ulp x" and "c = of_int m * ulp x"
  shows "binary64 x \<le> c"
proof (cases "x = 0")
  case True
  with assms show ?thesis by (simp add: binary64_def)
next
  case False
  with assms have pos: "0 < x" by simp
  have "x / ulp x \<le> of_int m"
    using assms by (simp add: pos_divide_le_eq)
  then have "round_half_even (x / ulp x) \<le> m"
    by (rule round_half_even_le)
  then have "of_int (round_half_even (x / ulp x)) * ulp x \<le> of_int m * ulp x"
    using assms(3) by (simp add: mult_right_mono)
  with pos assms(4) show ?thesis
    by (simp add: binary64_def Let_def)
qed

lemma ulp_pos: "0 < ulp x"
proof (cases "1 \<le> x")
  case True
  from ulp_ge1_pow [OF True, of 1023] obtain j where eq: "ulp_ge1 1023 x = 2 ^ j / 2 ^ 52"
    by auto
  have "0 < ulp_ge1 1023 x"
    unfolding eq by simp
  with True show ?thesis by (simp add: ulp_def)
next
  case False
  from ulp_lt1_pow [of 1022 x] obtain k where eq: "ulp_lt1 1022 x = 1 / 2 ^ k" ..
  have "0 < ulp_lt1 1022 x"
    unfolding eq by simp
  with False show ?thesis by (simp add: ulp_def)
qed

lemma binary64_nonneg:
  assumes "0 \<le> x"
  shows "0 \<le> binary64 x"
proof -
  have "of_int 0 \<le> x / ulp x"
    using assms ulp_pos [of x] by simp
  then have "0 \<le> round_half_even (x / ulp x)"
    by (rule round_half_even_ge)
  with assms ulp_pos [of x] show ?thesis
    by (simp add: binary64_def Let_def sgn_if)
qed

lemma binary64_le_1:
  assumes "0 \<le> x" and "x \<le> 1"
  shows "binary64 x \<le> 1"
proof -
  have "\<exists>k. ulp x = 1 / 2 ^ k"
  proof (cases "x = 1")
    case True
    have "ulp_ge1 1023 1 = 1 / 2 ^ 52"
      by (simp add: eval_nat_numeral)
    with True have "ulp x = 1 / 2 ^ 52"
      by (simp only: ulp_def) simp
    then show ?thesis ..
  next
    case False
    with assms have "\<not> 1 \<le> x" by simp
    then have "ulp x = ulp_lt1 1022 x"
      by (simp only: ulp_def if_False)
    with ulp_lt1_pow [of 1022 x] show ?thesis by simp
  qed
  then obtain k where u: "ulp x = 1 / 2 ^ k" ..
  have c: "(1::rat) = of_int (2 ^ k) * ulp x"
    unfolding u by simp
  show ?thesis
    by (rule binary64_le [OF assms ulp_pos c])
qed

lemma binary64_le_100:
  assumes "0 \<le> x" and "x \<le> 100"
  shows "binary64 x \<le> 100"
proof (cases "1 \<le> x")
  case False
  with assms binary64_le_1 [of x] show ?thesis by simp
next
  case True
  define P :: rat where "P = 2 ^ 52"
  from ulp_ge1_pow [OF True, of 1023] obtain j
    where j: "ulp_ge1 1023 x = 2 ^ j / P" "2 ^ j \<le> x"
    unfolding P_def by auto
  have "j < 7"
  proof (rule ccontr)
    assume "\<not> j < 7"
    then have "(2::rat) ^ 7 \<le> 2 ^ j"
      by (intro power_increasing) auto
    with j(2) assms(2) show False by simp
  qed
  then have "j \<le> 52" by simp
  then have P: "P = 2 ^ (52 - j) * 2 ^ j"
    unfolding P_def by (simp flip: power_add)
  have Ppos: "0 < P"
    unfolding P_def by simp
  have u: "ulp x = 2 ^ j / P"
    using True j(1) by (simp only: ulp_def if_True)
  have "of_int (100 * 2 ^ (52 - j)) * ulp x = 100 * (2 ^ (52 - j) * 2 ^ j) / P"
    unfolding u by simp
  also have "\<dots> = 100"
    using Ppos by (simp flip: P)
  finally have c: "(100::rat) = of_int (100 * 2 ^ (52 - j)) * ulp x"
    by simp
  show ?thesis
    by (rule binary64_le [OF assms ulp_pos c])
qed

lemma binary64_1: "binary64 1 = 1"
  by code_simp

lemma binary64_100: "binary64 100 = 100"
  by code_simp

subsection \<open>The percentage and the result of \<^verbatim>\<open>evaluate_mcq\<close>\<close>

lemma percentage_of_zero: "percentage_of sc 0 = Inr 0"
  by (simp add: percentage_of_def)

lemma percentage_of_none: "percentage_of 0 tot = Inr 0"
proof -
  have z: "binary64 0 = 0"
    by (simp add: binary64_def)
  show ?thesis
    using round_half_even_of_int [of 0]
    by (simp add: percentage_of_def truediv_def z)
qed

lemma percentage_of_full:
  assumes "0 < n"
  shows "percentage_of n n = Inr 100"
proof -
  have "truediv n n = Inr 1"
    using assms by (simp add: truediv_def binary64_1)
  with assms show ?thesis
    using round_half_even_of_int [of 100]
    by (simp add: percentage_of_def binary64_100)
qed

lemma percentage_of_bounds:
  assumes "0 \<le> sc" and "sc \<le> tot"
  shows "\<exists>pct. percentage_of sc tot = Inr pct \<and> 0 \<le> pct \<and> pct \<le> 100"
proof (cases "0 < tot")
  case False
  then show ?thesis by (simp add: percentage_of_def)
next
  case True
  define q where "q = binary64 (of_int sc / of_int tot)"
  have "0 \<le> (of_int sc / of_int tot :: rat)" "(of_int sc / of_int tot :: rat) \<le> 1"
    using assms True by simp_all
  then have q: "0 \<le> q" "q \<le> 1"
    unfolding q_def by (simp_all add: binary64_nonneg binary64_le_1)
  then have "0 \<le> q * 100" "q * 100 \<le> 100" by simp_all
  then have b: "of_int 0 \<le> binary64 (q * 100)" "binary64 (q * 100) \<le> of_int 100"
    by (simp_all add: binary64_nonneg binary64_le_100)
  have "0 \<le> round_half_even (binary64 (q * 100))"
    using b(1) by (rule round_half_even_ge)
  moreover have "round_half_even (binary64 (q * 100)) \<le> 100"
    using b(2) by (rule round_half_even_le)
  moreover have "percentage_of sc tot = Inr (round_half_even (binary64 (q * 100)))"
    using True by (simp add: percentage_of_def truediv_def q_def)
  ultimately show ?thesis by simp
qed

lemma evaluate_mcq_eq:
  "evaluate_mcq mt st =
     (let M = parse_answer_text mt; S = parse_answer_text st;
          sc = int (length (filter (correct S) M))
      in case percentage_of sc (int (length M)) of
           Inl e \<Rightarrow> Inl e
         | Inr pct \<Rightarrow>
             Inr \<lparr>score = sc, total = int (length M),
                  results = map (\<lambda>item. (fst item, entry S item)) M,
                  percentage = pct\<rparr>)"
proof -
  let ?M = "parse_answer_text mt" and ?S = "parse_answer_text st"
  have "fold (compare_step ?S) ?M (0, []) =
      (0 + int (length (filter (\<lambda>item. map_of ?S (fst item) = Some (snd item)) ?M)),
       [] @ map (\<lambda>item. (fst item, entry ?S item)) ?M)"
    using parse_get_nonempty [of st]
    by (intro fold_compare_step) (auto simp: distinct_parse_answer_text)
  then show ?thesis
    by (simp add: evaluate_mcq_def Let_def correct_def [abs_def] split: sum.split)
qed

lemma evaluate_mcq_returns:
  "\<exists>r. evaluate_mcq mt st = Inr r"
proof -
  let ?M = "parse_answer_text mt" and ?S = "parse_answer_text st"
  have "int (length (filter (correct ?S) ?M)) \<le> int (length ?M)"
    by simp
  from percentage_of_bounds [OF _ this] obtain pct
    where "percentage_of (int (length (filter (correct ?S) ?M))) (int (length ?M)) = Inr pct"
    by auto
  then show ?thesis
    by (simp add: evaluate_mcq_eq Let_def)
qed

subsection \<open>Whitespace, empty model answers, equal lookups\<close>

lemma strip_spaces:
  assumes "\<forall>c \<in> set s. is_space c"
  shows "strip s = []"
proof -
  from assms have d: "dropWhile is_space s = []"
    by simp
  show ?thesis
    unfolding strip_def d by simp
qed

lemma parse_spaces:
  assumes "\<forall>c \<in> set s. is_space c"
  shows "parse_answer_text s = []"
  using assms by (simp add: parse_cases Let_def strip_spaces upper_def)

lemma evaluate_mcq_no_model:
  assumes "parse_answer_text mt = []"
  shows "evaluate_mcq mt st = Inr \<lparr>score = 0, total = 0, results = [], percentage = 0\<rparr>"
  using assms by (simp add: evaluate_mcq_eq Let_def percentage_of_zero)

lemma entry_cong:
  assumes "map_of S' (fst item) = map_of S (fst item)"
  shows "entry S' item = entry S item" and "correct S' item = correct S item"
  using assms by (simp_all add: entry_def correct_def)

lemma self_correct:
  assumes "distinct (map fst M)" and "item \<in> set M"
  shows "correct M item"
  using assms by (cases item) (simp add: correct_def)

section \<open>The claims\<close>

text \<open>
  C1. For every input string, \<^verbatim>\<open>parse_answer_text\<close> tries the three shapes in a fixed
  order: the pairs separated by whitespace first; the adjacent pairs only when there is no
  pair separated by whitespace; the scan of the lines only when there is no pair of either
  kind (and the stripped, upper-cased text holds a line feed; without one the result is
  empty). In the shape that applies, the option stored for a question number is the option
  of its last occurrence: the map of the result is the map of the reversed list of matches,
  and \<^const>\<open>map_of\<close> takes the first entry of a key.
\<close>

theorem parse_answer_text_priority:
  "let text = upper (strip t);
       sp = finditer SpaceSeparated text;
       ad = finditer Adjacent text;
       ln = List.map_filter line_match (split_lines text)
   in (sp \<noteq> [] \<longrightarrow> map_of (parse_answer_text t) = map_of (rev sp)) \<and>
      (sp = [] \<and> ad \<noteq> [] \<longrightarrow> map_of (parse_answer_text t) = map_of (rev ad)) \<and>
      (sp = [] \<and> ad = [] \<and> CHR 0x0A \<in> set text \<longrightarrow>
         map_of (parse_answer_text t) = map_of (rev ln)) \<and>
      (sp = [] \<and> ad = [] \<and> CHR 0x0A \<notin> set text \<longrightarrow> parse_answer_text t = [])"
  by (simp add: parse_cases [of t] Let_def map_of_fold_store)

text \<open>
  The four cases at \<^verbatim>\<open>"1 a 1 b"\<close>, \<^verbatim>\<open>"1a1b"\<close>, two lines \<^verbatim>\<open>"Q1: a"\<close> and
  \<^verbatim>\<open>"Q1: b"\<close>, and \<^verbatim>\<open>"hello world"\<close>: in the first three the second occurrence of
  question 1 decides.
\<close>

theorem parse_answer_text_priority_witness:
  "map_of (parse_answer_text ''1 a 1 b'') = [''1'' \<mapsto> ''B''] \<and>
   map_of (parse_answer_text ''1a1b'') = [''1'' \<mapsto> ''B''] \<and>
   map_of (parse_answer_text ''Q1: a\<newline>Q1: b'') = [''1'' \<mapsto> ''B''] \<and>
   parse_answer_text ''hello world'' = []"
proof -
  have sp1: "finditer SpaceSeparated (upper (strip ''1 a 1 b'')) = [(''1'', ''A''), (''1'', ''B'')]"
    by code_simp
  have sp2: "finditer SpaceSeparated (upper (strip ''1a1b'')) = []"
    and ad2: "finditer Adjacent (upper (strip ''1a1b'')) = [(''1'', ''A''), (''1'', ''B'')]"
    by code_simp+
  have sp3: "finditer SpaceSeparated (upper (strip ''Q1: a\<newline>Q1: b'')) = []"
    and ad3: "finditer Adjacent (upper (strip ''Q1: a\<newline>Q1: b'')) = []"
    and nl3: "CHR 0x0A \<in> set (upper (strip ''Q1: a\<newline>Q1: b''))"
    and ln3: "List.map_filter line_match (split_lines (upper (strip ''Q1: a\<newline>Q1: b'')))
       = [(''1'', ''A''), (''1'', ''B'')]"
    by code_simp+
  have sp4: "finditer SpaceSeparated (upper (strip ''hello world'')) = []"
    and ad4: "finditer Adjacent (upper (strip ''hello world'')) = []"
    and nl4: "CHR 0x0A \<notin> set (upper (strip ''hello world''))"
    by code_simp+
  have "map_of (parse_answer_text ''1 a 1 b'') = [''1'' \<mapsto> ''B'']"
    using parse_answer_text_priority [of "''1 a 1 b''"] by (simp add: Let_def sp1)
  moreover have "map_of (parse_answer_text ''1a1b'') = [''1'' \<mapsto> ''B'']"
    using parse_answer_text_priority [of "''1a1b''"] by (simp add: Let_def sp2 ad2)
  moreover have "map_of (parse_answer_text ''Q1: a\<newline>Q1: b'') = [''1'' \<mapsto> ''B'']"
    using parse_answer_text_priority [of "''Q1: a\<newline>Q1: b''"]
    by (simp add: Let_def sp3 ad3 nl3 ln3)
  moreover have "parse_answer_text ''hello world'' = []"
    using parse_answer_text_priority [of "''hello world''"]
    by (simp add: Let_def sp4 ad4 nl4)
  ultimately show ?thesis by simp
qed

text \<open>
  C2, as it is written, is about the scorer: called with an empty student text it would
  fail before any parsing. \<^verbatim>\<open>evaluate_mcq\<close>, the function that takes the two texts, has
  no such check: for the model text \<^verbatim>\<open>"1A"\<close> and the student text \<^verbatim>\<open>""\<close> it returns
  a result with score 0 and total 1, question 1 incorrect with no student option.
\<close>

theorem evaluate_mcq_accepts_empty_text:
  "evaluate_mcq ''1A'' '''' =
     Inr \<lparr>score = 0, total = 1,
          results = [(''1'', \<lparr>correctOption = ''A'', studentOption = None, isCorrect = False\<rparr>)],
          percentage = 0\<rparr>"
proof -
  have m: "parse_answer_text ''1A'' = [(''1'', ''A'')]"
    by code_simp
  have s: "parse_answer_text '''' = []"
    by (simp add: parse_answer_text_def)
  show ?thesis
    by (simp add: evaluate_mcq_eq Let_def m s correct_def entry_def percentage_of_none)
qed

text \<open>
  C2, amended. The check is in \<^verbatim>\<open>process_json_input\<close>, the wrapper that takes the two
  raw inputs out of the JSON object, and the error is the ValueError of line 190. The
  wrapper fails with it whenever either input is absent or the empty string, whatever the
  other input is; in particular for the student text \<^verbatim>\<open>""\<close> and any model text. The
  result is fixed by the guard alone, before \<^verbatim>\<open>evaluate_mcq\<close> and with it the parser is
  called. \<^verbatim>\<open>evaluate_mcq\<close> itself returns a result when either text is empty. Two
  non-empty strings pass the guard and \<^verbatim>\<open>evaluate_mcq\<close> returns a result; a non-empty
  model text that parses to the empty dictionary gives the result with total 0, not an
  error.
\<close>

theorem process_json_input_rejects_empty:
  "process_json_input \<lparr>model_answers = m, student_answers = None\<rparr> = Inl ValueError \<and>
   process_json_input \<lparr>model_answers = m, student_answers = Some []\<rparr> = Inl ValueError \<and>
   process_json_input \<lparr>model_answers = None, student_answers = s\<rparr> = Inl ValueError \<and>
   process_json_input \<lparr>model_answers = Some [], student_answers = s\<rparr> = Inl ValueError \<and>
   (\<exists>r. evaluate_mcq mt [] = Inr r) \<and>
   (\<exists>r. evaluate_mcq [] st = Inr r) \<and>
   (mt \<noteq> [] \<and> st \<noteq> [] \<longrightarrow>
      process_json_input \<lparr>model_answers = Some mt, student_answers = Some st\<rparr>
        = evaluate_mcq mt st \<and>
      (\<exists>r. evaluate_mcq mt st = Inr r) \<and>
      (parse_answer_text mt = [] \<longrightarrow>
         evaluate_mcq mt st = Inr \<lparr>score = 0, total = 0, results = [], percentage = 0\<rparr>))"
  using evaluate_mcq_returns [of mt st] evaluate_mcq_no_model [of mt st]
    evaluate_mcq_returns [of mt "[]"] evaluate_mcq_returns [of "[]" st]
  by (simp add: process_json_input_def truthy_def)

text \<open>
  The guard lets \<^verbatim>\<open>"hello world"\<close> through, which parses to the empty dictionary, and
  stops an empty student text.
\<close>

theorem process_json_input_rejects_empty_witness:
  "process_json_input \<lparr>model_answers = Some ''hello world'', student_answers = Some ''1 a''\<rparr>
     = Inr \<lparr>score = 0, total = 0, results = [], percentage = 0\<rparr> \<and>
   process_json_input \<lparr>model_answers = Some ''1A 2B'', student_answers = Some ''''\<rparr>
     = Inl ValueError"
proof -
  have p: "parse_answer_text ''hello world'' = []"
    by code_simp
  have ne: "''hello world'' \<noteq> [] \<and> ''1 a'' \<noteq> []"
    by simp
  from process_json_input_rejects_empty
    [of "Some ''1A 2B''" "None" "''hello world''" "''1 a''"] p ne
  show ?thesis by simp
qed

text \<open>
  C3. Parsing \<^verbatim>\<open>"Q1: a\nQ2: b"\<close> gives exactly the dictionary with \<^verbatim>\<open>"1"\<close> for
  \<^verbatim>\<open>"A"\<close> and \<^verbatim>\<open>"2"\<close> for \<^verbatim>\<open>"B"\<close>: neither pair pattern matches anywhere (a colon
  follows each digit run), the text holds a line feed, and each of the two lines yields its
  first digit run with its first letter of \<^verbatim>\<open>A\<close> to \<^verbatim>\<open>D\<close>.
\<close>

theorem parse_line_fallback:
  "finditer SpaceSeparated (upper (strip ''Q1: a\<newline>Q2: b'')) = [] \<and>
   finditer Adjacent (upper (strip ''Q1: a\<newline>Q2: b'')) = [] \<and>
   CHR 0x0A \<in> set (upper (strip ''Q1: a\<newline>Q2: b'')) \<and>
   map line_match (split_lines (upper (strip ''Q1: a\<newline>Q2: b'')))
     = [Some (''1'', ''A''), Some (''2'', ''B'')] \<and>
   parse_answer_text ''Q1: a\<newline>Q2: b'' = [(''1'', ''A''), (''2'', ''B'')]"
  by code_simp

text \<open>
  C4. For every model text and student text, the results of \<^verbatim>\<open>evaluate_mcq\<close> have
  exactly the keys of the parsed model answers, each once and in the same order; and any
  other student text whose parsed answers agree with the first on the keys of the model
  answers gives the very same result record: what the student answers hold for other
  question numbers changes neither the score nor the results.
\<close>

theorem results_follow_model_keys:
  "\<exists>r. evaluate_mcq mt st = Inr r \<and>
       map fst (results r) = map fst (parse_answer_text mt) \<and>
       distinct (map fst (results r)) \<and>
       (\<forall>st'. (\<forall>q \<in> set (map fst (parse_answer_text mt)).
                 map_of (parse_answer_text st') q = map_of (parse_answer_text st) q)
              \<longrightarrow> evaluate_mcq mt st' = Inr r)"
proof -
  let ?M = "parse_answer_text mt" and ?S = "parse_answer_text st"
  from evaluate_mcq_returns [of mt st] obtain r where r: "evaluate_mcq mt st = Inr r" ..
  from r have res: "results r = map (\<lambda>item. (fst item, entry ?S item)) ?M"
    by (auto simp: evaluate_mcq_eq Let_def split: sum.splits)
  then have keys: "map fst (results r) = map fst ?M"
    by (simp add: comp_def)
  have "evaluate_mcq mt st' = Inr r"
    if agree: "\<forall>q \<in> set (map fst ?M). map_of (parse_answer_text st') q = map_of ?S q" for st'
  proof -
    let ?S' = "parse_answer_text st'"
    have same: "map_of ?S' (fst item) = map_of ?S (fst item)" if "item \<in> set ?M" for item
      using agree that by simp
    have "filter (correct ?S') ?M = filter (correct ?S) ?M"
      by (rule filter_cong) (auto dest: same entry_cong(2))
    moreover have "map (\<lambda>item. (fst item, entry ?S' item)) ?M
        = map (\<lambda>item. (fst item, entry ?S item)) ?M"
      by (rule map_cong) (auto dest: same entry_cong(1))
    ultimately have "evaluate_mcq mt st' = evaluate_mcq mt st"
      by (simp only: evaluate_mcq_eq Let_def)
    with r show ?thesis by simp
  qed
  with r keys show ?thesis
    by (auto simp: distinct_parse_answer_text)
qed

text \<open>
  The student texts \<^verbatim>\<open>"1 a 7 d"\<close> and \<^verbatim>\<open>"1 a 9 c"\<close> parse to different dictionaries
  that agree on the questions 1 and 2 of the model text \<^verbatim>\<open>"1A 2B"\<close>.
\<close>

theorem results_follow_model_keys_witness:
  "map fst (parse_answer_text ''1A 2B'') = [''1'', ''2''] \<and>
   map_of (parse_answer_text ''1 a 7 d'') ''1'' = map_of (parse_answer_text ''1 a 9 c'') ''1'' \<and>
   map_of (parse_answer_text ''1 a 7 d'') ''2'' = map_of (parse_answer_text ''1 a 9 c'') ''2'' \<and>
   parse_answer_text ''1 a 7 d'' \<noteq> parse_answer_text ''1 a 9 c'' \<and>
   evaluate_mcq ''1A 2B'' ''1 a 7 d'' = evaluate_mcq ''1A 2B'' ''1 a 9 c''"
proof -
  have m: "parse_answer_text ''1A 2B'' = [(''1'', ''A''), (''2'', ''B'')]"
    and s1: "parse_answer_text ''1 a 7 d'' = [(''1'', ''A''), (''7'', ''D'')]"
    and s2: "parse_answer_text ''1 a 9 c'' = [(''1'', ''A''), (''9'', ''C'')]"
    by code_simp+
  have agree: "\<forall>q \<in> set (map fst (parse_answer_text ''1A 2B'')).
      map_of (parse_answer_text ''1 a 7 d'') q = map_of (parse_answer_text ''1 a 9 c'') q"
    by (simp add: m s1 s2)
  from results_follow_model_keys [of "''1A 2B''" "''1 a 9 c''"] obtain r
    where r: "evaluate_mcq ''1A 2B'' ''1 a 9 c'' = Inr r"
      and others: "\<forall>st'. (\<forall>q \<in> set (map fst (parse_answer_text ''1A 2B'')).
            map_of (parse_answer_text st') q = map_of (parse_answer_text ''1 a 9 c'') q)
          \<longrightarrow> evaluate_mcq ''1A 2B'' st' = Inr r"
    by blast
  from others agree have "evaluate_mcq ''1A 2B'' ''1 a 7 d'' = Inr r"
    by blast
  with r show ?thesis
    by (simp add: m s1 s2)
qed

text \<open>
  C5. For every text \<open>t\<close>, \<^verbatim>\<open>evaluate_mcq\<close> of \<open>t\<close> against itself returns a result
  with the score equal to the total, and with the percentage 100 whenever the total is
  positive.
\<close>

theorem self_evaluation_full_marks:
  "\<exists>r. evaluate_mcq t t = Inr r \<and> score r = total r \<and>
       (0 < total r \<longrightarrow> percentage r = 100)"
proof -
  let ?M = "parse_answer_text t"
  have "filter (correct ?M) ?M = ?M"
    by (rule filter_True) (auto intro: self_correct distinct_parse_answer_text)
  then have sc: "int (length (filter (correct ?M) ?M)) = int (length ?M)"
    by simp
  show ?thesis
  proof (cases "?M = []")
    case True
    then show ?thesis by (simp add: evaluate_mcq_no_model)
  next
    case False
    then have "0 < int (length ?M)" by simp
    then have "percentage_of (int (length ?M)) (int (length ?M)) = Inr 100"
      by (rule percentage_of_full)
    then show ?thesis
      by (simp add: evaluate_mcq_eq Let_def sc)
  qed
qed

text \<open>
  At \<^verbatim>\<open>"1A 2B"\<close> the total is 2.
\<close>

theorem self_evaluation_full_marks_witness:
  "\<exists>r. evaluate_mcq ''1A 2B'' ''1A 2B'' = Inr r \<and> score r = 2 \<and> total r = 2
       \<and> percentage r = 100"
proof -
  have p: "parse_answer_text ''1A 2B'' = [(''1'', ''A''), (''2'', ''B'')]"
    by code_simp
  from self_evaluation_full_marks [of "''1A 2B''"] obtain r
    where r: "evaluate_mcq ''1A 2B'' ''1A 2B'' = Inr r" "score r = total r"
      "0 < total r \<longrightarrow> percentage r = 100"
    by blast
  from r(1) have "total r = 2"
    by (auto simp: evaluate_mcq_eq Let_def p split: sum.splits)
  with r show ?thesis by simp
qed

text \<open>
  C6. When the model text has no pair that the parser finds, \<^verbatim>\<open>evaluate_mcq\<close> returns
  total 0, score 0 and percentage 0 and no results. The division is not reached: with the
  total 0 the quotient alone would be a ZeroDivisionError, and the percentage of line 115 is
  0 by its guard \<^verbatim>\<open>total > 0\<close>.
\<close>

theorem zero_total_no_division:
  "(parse_answer_text mt = [] \<longrightarrow>
      evaluate_mcq mt st = Inr \<lparr>score = 0, total = 0, results = [], percentage = 0\<rparr>) \<and>
   truediv sc 0 = Inl ZeroDivisionError \<and>
   percentage_of sc 0 = Inr 0"
  by (simp add: evaluate_mcq_no_model truediv_def percentage_of_zero)

text \<open>
  The model text \<^verbatim>\<open>"hello world"\<close> has no pair.
\<close>

theorem zero_total_no_division_witness:
  "parse_answer_text ''hello world'' = [] \<and>
   evaluate_mcq ''hello world'' ''1 a 2 b'' =
     Inr \<lparr>score = 0, total = 0, results = [], percentage = 0\<rparr>"
proof -
  have p: "parse_answer_text ''hello world'' = []"
    by code_simp
  with zero_total_no_division [of "''hello world''" "''1 a 2 b''" 0] show ?thesis
    by simp
qed

text \<open>
  C7. The model text \<^verbatim>\<open>"1A 2B 3C 4D"\<close> against the student text
  \<^verbatim>\<open>"1 a 2 x 3 c 4 d"\<close>: score 3, total 4, percentage 75; question 2 is incorrect and its
  student option is absent, because \<^verbatim>\<open>X\<close> is no option letter and the pair \<^verbatim>\<open>2 x\<close>
  puts nothing into the student answers.
\<close>

theorem evaluate_mcq_scenario:
  "parse_answer_text ''1A 2B 3C 4D'' = [(''1'', ''A''), (''2'', ''B''), (''3'', ''C''), (''4'', ''D'')] \<and>
   parse_answer_text ''1 a 2 x 3 c 4 d'' = [(''1'', ''A''), (''3'', ''C''), (''4'', ''D'')] \<and>
   evaluate_mcq ''1A 2B 3C 4D'' ''1 a 2 x 3 c 4 d'' =
     Inr \<lparr>score = 3, total = 4,
          results =
            [(''1'', \<lparr>correctOption = ''A'', studentOption = Some ''A'', isCorrect = True\<rparr>),
             (''2'', \<lparr>correctOption = ''B'', studentOption = None, isCorrect = False\<rparr>),
             (''3'', \<lparr>correctOption = ''C'', studentOption = Some ''C'', isCorrect = True\<rparr>),
             (''4'', \<lparr>correctOption = ''D'', studentOption = Some ''D'', isCorrect = True\<rparr>)],
          percentage = 75\<rparr>"
  by code_simp

text \<open>
  C8. \<^verbatim>\<open>evaluate_mcq\<close> returns a result record for every two strings and raises
  nothing. The empty string parses to the empty dictionary: an empty model text gives the
  result with total 0, an empty student text a result with score 0. The same empty texts
  are an error only in \<^verbatim>\<open>process_json_input\<close>.
\<close>

theorem evaluate_mcq_total:
  "(\<exists>r. evaluate_mcq mt st = Inr r) \<and>
   parse_answer_text [] = [] \<and>
   evaluate_mcq [] st = Inr \<lparr>score = 0, total = 0, results = [], percentage = 0\<rparr> \<and>
   (\<exists>r. evaluate_mcq mt [] = Inr r \<and> score r = 0) \<and>
   process_json_input \<lparr>model_answers = Some [], student_answers = Some st\<rparr> = Inl ValueError \<and>
   process_json_input \<lparr>model_answers = Some mt, student_answers = Some []\<rparr> = Inl ValueError"
proof -
  have e: "parse_answer_text [] = []"
    by (simp add: parse_answer_text_def)
  have "filter (correct []) (parse_answer_text mt) = []"
    by (simp add: correct_def)
  then have "\<exists>r. evaluate_mcq mt [] = Inr r \<and> score r = 0"
    using evaluate_mcq_returns [of mt "[]"]
    by (auto simp: evaluate_mcq_eq Let_def e split: sum.splits)
  then show ?thesis
    using evaluate_mcq_returns [of mt st] e
    by (simp add: evaluate_mcq_no_model process_json_input_def truthy_def)
qed

text \<open>
  The texts \<^verbatim>\<open>"1A"\<close> and \<^verbatim>\<open>""\<close>, either way round: a result from
  \<^verbatim>\<open>evaluate_mcq\<close>, an error from \<^verbatim>\<open>process_json_input\<close>.
\<close>

theorem evaluate_mcq_total_witness:
  "(\<exists>r. evaluate_mcq ''1A'' [] = Inr r \<and> score r = 0) \<and>
   evaluate_mcq [] ''1A'' = Inr \<lparr>score = 0, total = 0, results = [], percentage = 0\<rparr> \<and>
   process_json_input \<lparr>model_answers = Some [], student_answers = Some ''1A''\<rparr>
     = Inl ValueError \<and>
   process_json_input \<lparr>model_answers = Some ''1A'', student_answers = Some []\<rparr>
     = Inl ValueError"
  using evaluate_mcq_total [of "''1A''" "''1A''"] by simp

text \<open>
  C9. For every two texts the result has \<open>0 \<le> score \<le> total\<close>, the score is the
  number of entries of the results whose \<^verbatim>\<open>isCorrect\<close> is true, and
  \<open>0 \<le> percentage \<le> 100\<close>. The bounds of the percentage hold for the value that the
  binary64 division, the binary64 product and \<^verbatim>\<open>round\<close> give.
\<close>

theorem result_bounds:
  "\<exists>r. evaluate_mcq mt st = Inr r \<and>
       0 \<le> score r \<and> score r \<le> total r \<and>
       score r = int (length (filter (\<lambda>e. isCorrect (snd e)) (results r))) \<and>
       0 \<le> percentage r \<and> percentage r \<le> 100"
proof -
  let ?M = "parse_answer_text mt" and ?S = "parse_answer_text st"
  let ?sc = "int (length (filter (correct ?S) ?M))"
  have le: "?sc \<le> int (length ?M)" by simp
  from percentage_of_bounds [OF _ le] obtain pct
    where pct: "percentage_of ?sc (int (length ?M)) = Inr pct" "0 \<le> pct" "pct \<le> 100"
    by auto
  have "filter (\<lambda>e. isCorrect (snd e)) (map (\<lambda>item. (fst item, entry ?S item)) ?M)
      = map (\<lambda>item. (fst item, entry ?S item)) (filter (correct ?S) ?M)"
    by (simp add: filter_map comp_def entry_def correct_def [abs_def])
  then have "?sc = int (length (filter (\<lambda>e. isCorrect (snd e))
      (map (\<lambda>item. (fst item, entry ?S item)) ?M)))"
    by simp
  with pct le show ?thesis
    by (simp add: evaluate_mcq_eq Let_def)
qed

text \<open>
  C10. A non-empty text \<open>w\<close> of whitespace only passes the guard of
  \<^verbatim>\<open>process_json_input\<close>. As the model text, with any non-empty student text, it gives
  the result with total 0 and no error; as the student text it gives a result with score 0
  for the parsed model answers.
\<close>

theorem whitespace_only_accepted:
  assumes "w \<noteq> []" and "\<forall>c \<in> set w. is_space c" and "t \<noteq> []"
  shows "process_json_input \<lparr>model_answers = Some w, student_answers = Some t\<rparr>
           = Inr \<lparr>score = 0, total = 0, results = [], percentage = 0\<rparr> \<and>
         (\<exists>r. process_json_input \<lparr>model_answers = Some t, student_answers = Some w\<rparr> = Inr r
              \<and> score r = 0 \<and> total r = int (length (parse_answer_text t)))"
proof -
  have w: "parse_answer_text w = []"
    using assms(2) by (rule parse_spaces)
  have "filter (correct []) (parse_answer_text t) = []"
    by (simp add: correct_def)
  then have "\<exists>r. evaluate_mcq t w = Inr r \<and> score r = 0
      \<and> total r = int (length (parse_answer_text t))"
    using evaluate_mcq_returns [of t w]
    by (auto simp: evaluate_mcq_eq Let_def w split: sum.splits)
  with assms(1,3) w show ?thesis
    by (simp add: process_json_input_def truthy_def evaluate_mcq_no_model)
qed

text \<open>
  The text of one space, as both inputs.
\<close>

theorem whitespace_only_accepted_witness:
  "process_json_input \<lparr>model_answers = Some '' '', student_answers = Some '' ''\<rparr>
     = Inr \<lparr>score = 0, total = 0, results = [], percentage = 0\<rparr>"
proof -
  have "\<forall>c \<in> set '' ''. is_space c"
    by (simp add: is_space_def)
  with whitespace_only_accepted [of "'' ''" "'' ''"] show ?thesis
    by simp
qed

end
